theory Spec2Isabelle
  imports Complex_Main "HOL-Library.Stream" "HOL-Library.Log_Nat"
begin

section \<open>Strategies of Axelrod's second tournament (axelrod\_second.py)\<close>

subsection \<open>Actions, players and the Python primitives the strategies use\<close>

datatype Action = C | D

text \<open>
  Modelled from the spec: \<open>Action.flip\<close> is defined in \<open>axelrod.action\<close>, which is not
  part of the source at hand; the spec describes it as the operation exchanging Cooperate
  and Defect.
\<close>

fun flip :: "Action \<Rightarrow> Action" where
  "flip C = D"
| "flip D = C"

text \<open>
  The exceptions a strategy can raise. \<open>ReturnsNone\<close> marks the end of \<open>k86r\<close>,
  where the Python function falls off its last \<open>if\<close> and hands back \<open>None\<close>
  instead of an action.
\<close>

datatype py_error = IndexError | ZeroDivisionError | OverflowError | KeyError | ReturnsNone

subsection \<open>Python floats\<close>

text \<open>
  A Python float is an IEEE 754 double. \<open>rne\<close> rounds a real to the nearest integer, a
  tie going to the even one. \<open>expo x\<close> is, for a positive \<open>x\<close>, the exponent \<open>e\<close> with
  \<open>2^e \<le> x < 2^(e+1)\<close>. \<open>round_pos\<close> rounds a positive real to the nearest multiple of
  the unit in the last place of its binade: 53 significant bits, and the fixed unit
  \<open>2^-1074\<close> below the smallest normal number \<open>2^-1022\<close>. \<open>round_double\<close> extends it to
  all reals by symmetry. The result is a double unless its magnitude reaches \<open>2^1024\<close>,
  the overflow bound.
\<close>

definition rne :: "real \<Rightarrow> int" where
  "rne y =
     (let f = \<lfloor>y\<rfloor>; d = y - of_int f
      in if d < 1 / 2 then f else if 1 / 2 < d then f + 1 else if even f then f else f + 1)"

definition expo :: "real \<Rightarrow> int" where
  "expo x = (if 1 \<le> x then bitlen \<lfloor>x\<rfloor> - 1 else - bitlen (\<lceil>1 / x\<rceil> - 1))"

definition round_pos :: "real \<Rightarrow> real" where
  "round_pos x =
     (let e = max (expo x) (- 1022); ulp = 2 powi (e - 52)
      in of_int (rne (x / ulp)) * ulp)"

definition round_double :: "real \<Rightarrow> real" where
  "round_double x = (if x = 0 then 0 else if 0 < x then round_pos x else - round_pos (- x))"

definition overflow_bound :: real where
  "overflow_bound = 2 powi 1024"

text \<open>A decimal literal of the source, such as \<open>0.4\<close>: the double nearest to it.\<close>

definition literal :: "real \<Rightarrow> real" where
  "literal x = round_double x"

text \<open>
  The value of a float expression: a finite double or an infinity. An arithmetic operation
  on floats rounds its exact result and overflows to an infinity without raising.
\<close>

datatype float = Finite real | Infinity | MinusInfinity

definition to_float :: "real \<Rightarrow> float" where
  "to_float x =
     (let d = round_double x
      in if overflow_bound \<le> d then Infinity
         else if d \<le> - overflow_bound then MinusInfinity
         else Finite d)"

text \<open>\<open>x - y\<close> on two finite floats.\<close>

definition float_sub :: "real \<Rightarrow> real \<Rightarrow> float" where
  "float_sub x y = to_float (x - y)"

text \<open>\<open>r < v\<close> for a finite number \<open>r\<close> and a float \<open>v\<close>; Python compares the exact values.\<close>

fun lt_float :: "real \<Rightarrow> float \<Rightarrow> bool" where
  "lt_float r (Finite x) = (r < x)"
| "lt_float r Infinity = True"
| "lt_float r MinusInfinity = False"

text \<open>
  \<open>a / b\<close> on two Python integers: true division. It raises \<open>ZeroDivisionError\<close> for a
  zero divisor, returns the double nearest to the exact quotient, and raises
  \<open>OverflowError\<close> when that is too large for a double.
\<close>

definition truediv :: "int \<Rightarrow> int \<Rightarrow> py_error + real" where
  "truediv a b =
     (if b = 0 then Inl ZeroDivisionError
      else
        (let q = round_double (real_of_int a / real_of_int b)
         in if overflow_bound \<le> \<bar>q\<bar> then Inl OverflowError else Inr q))"

text \<open>
  Modelled from the spec: the match engine that fills \<open>match_attributes\<close> is not part
  of the source at hand. The value stored under \<open>'length'\<close> is the expected number of
  rounds, which "may be infinite": an integer, or \<open>float('inf')\<close>, the marker the source
  itself uses for "unbounded" (see the \<open>memory_depth\<close> entries of the classifiers).
\<close>

datatype number = Fin int | PosInf

text \<open>
  \<open>x / k\<close> and \<open>x * k\<close> for such a value and a positive integer literal \<open>k\<close>, and
  \<open>n < v\<close> for a round index \<open>n\<close>. An integer is divided as above; infinity stays infinity.
\<close>

fun num_div :: "number \<Rightarrow> int \<Rightarrow> py_error + float" where
  "num_div (Fin x) k = (case truediv x k of Inl e \<Rightarrow> Inl e | Inr q \<Rightarrow> Inr (Finite q))"
| "num_div PosInf k = Inr Infinity"

fun num_mul :: "number \<Rightarrow> int \<Rightarrow> number" where
  "num_mul (Fin x) k = Fin (x * k)"
| "num_mul PosInf k = PosInf"

definition round_lt :: "nat \<Rightarrow> float \<Rightarrow> bool" where
  "round_lt n v = lt_float (real n) v"

text \<open>
  A match length in the range of a double: infinity, or an integer of magnitude below
  \<open>2^1024\<close>.
\<close>

fun in_double_range :: "number \<Rightarrow> bool" where
  "in_double_range (Fin x) = (\<bar>x\<bar> < 2 ^ 1024)"
| "in_double_range PosInf = True"

text \<open>
  Modelled from the spec: \<open>axelrod.player.Player\<close> is not part of the source at hand.
  These are the fields the strategies read: the history, the two counters kept by the match
  engine and the match attributes (a dict). Tester and Gladstein add the flag their
  \<open>__init__\<close> sets.
\<close>

record Player =
  history :: "Action list"
  cooperations :: int
  defections :: int
  match_attributes :: "string \<rightharpoonup> number"

record Tester = Player +
  is_TFT :: bool

record Gladstein = Player +
  patsy :: bool

text \<open>
  \<open>xs[i]\<close> for a Python list: an index below zero counts from the end, and an index
  outside the list raises \<open>IndexError\<close>.
\<close>

definition getitem :: "'a list \<Rightarrow> int \<Rightarrow> py_error + 'a" where
  "getitem xs i =
     (let pos = (if i < 0 then i + int (length xs) else i)
      in if pos < 0 \<or> int (length xs) \<le> pos then Inl IndexError
         else Inr (xs ! nat pos))"

text \<open>\<open>xs[-1:]\<close>: the slice holding the last element, empty for an empty list; it never raises.\<close>

definition last_slice :: "'a list \<Rightarrow> 'a list" where
  "last_slice xs = drop (length xs - 1) xs"

text \<open>\<open>range(a, b)\<close> over Python integers.\<close>

definition py_range :: "int \<Rightarrow> int \<Rightarrow> int list" where
  "py_range a b = [a .. b - 1]"

subsection \<open>The random source and the state a call works on\<close>

text \<open>
  The module-level random source is a stream of draws, each a double in \<open>[0, 1)\<close>;
  \<open>random.random()\<close> takes the next one.
\<close>

definition random :: "real stream \<Rightarrow> real \<times> real stream" where
  "random g = (shd g, stl g)"

text \<open>
  Modelled from the spec: \<open>random_choice\<close> is defined in \<open>axelrod.random_\<close>, which is
  not part of the source at hand. The spec gives its contract: draw \<open>r\<close> uniformly in
  \<open>[0, 1)\<close> and return Cooperate if \<open>r < p\<close>, Defect otherwise.
\<close>

definition random_choice :: "float \<Rightarrow> real stream \<Rightarrow> Action \<times> real stream" where
  "random_choice p g = (let (r, g') = random g in (if lt_float r p then C else D, g'))"

text \<open>
  Everything a call \<open>self.strategy(opponent)\<close> can read or write: the two player objects
  and the random source. A strategy returns the action (or the exception raised) together
  with the state it leaves behind.
\<close>

record ('s, 'o) world =
  self :: 's
  opponent :: 'o
  rand :: "real stream"

type_synonym ('s, 'o) strategy = "('s, 'o) world \<Rightarrow> (py_error + Action) \<times> ('s, 'o) world"

subsection \<open>Champion\<close>

definition Champion_strategy :: "('s Player_scheme, 'o Player_scheme) strategy" where
  "Champion_strategy w =
     (let current_round = length (history (self w)) in
      case match_attributes (self w) ''length'' of
        None \<Rightarrow> (Inl KeyError, w)
      | Some expected_length \<Rightarrow>
          if current_round = 0 then (Inr C, w)
          else
            (case num_div expected_length 20 of
               Inl e \<Rightarrow> (Inl e, w)
             | Inr first_phase \<Rightarrow>
                 if round_lt current_round first_phase then (Inr C, w)
                 else
                   (case num_div (num_mul expected_length 5) 40 of
                      Inl e \<Rightarrow> (Inl e, w)
                    | Inr mirror_phase \<Rightarrow>
                        if round_lt current_round mirror_phase then
                          (getitem (history (opponent w)) (- 1), w)
                        else
                          (case truediv (defections (opponent w))
                                  (int (length (history (opponent w)))) of
                             Inl e \<Rightarrow> (Inl e, w)
                           | Inr defection_prop \<Rightarrow>
                               (case getitem (history (opponent w)) (- 1) of
                                  Inl e \<Rightarrow> (Inl e, w)
                                | Inr m \<Rightarrow>
                                    if m = D then
                                      (let (r, g) = random (rand w) in
                                       if defection_prop \<ge> max (literal 0.4) r
                                       then (Inr D, w\<lparr>rand := g\<rparr>)
                                       else (Inr C, w\<lparr>rand := g\<rparr>))
                                    else (Inr C, w))))))"

subsection \<open>Eatherley\<close>

definition Eatherley_strategy :: "('s, 'o Player_scheme) strategy" where
  "Eatherley_strategy w =
     (if length (history (opponent w)) = 0 then (Inr C, w)
      else
        (case getitem (history (opponent w)) (- 1) of
           Inl e \<Rightarrow> (Inl e, w)
         | Inr m \<Rightarrow>
             if m = C then (Inr C, w)
             else
               (case truediv (defections (opponent w)) (int (length (history (opponent w)))) of
                  Inl e \<Rightarrow> (Inl e, w)
                | Inr defection_prop \<Rightarrow>
                    (let (a, g) = random_choice (float_sub 1 defection_prop) (rand w)
                     in (Inr a, w\<lparr>rand := g\<rparr>)))))"

subsection \<open>Tester\<close>

definition Tester_strategy :: "('s Tester_scheme, 'o Player_scheme) strategy" where
  "Tester_strategy w =
     (if history (opponent w) = [] then (Inr D, w)
      else if is_TFT (self w) then
        (Inr (if last_slice (history (opponent w)) = [D] then D else C), w)
      else
        (case getitem (history (opponent w)) (- 1) of
           Inl e \<Rightarrow> (Inl e, w)
         | Inr m \<Rightarrow>
             if m = D then (Inr C, w\<lparr>self := (self w)\<lparr>is_TFT := True\<rparr>\<rparr>)
             else if length (history (self w)) \<in> set [1, 2] then (Inr C, w)
             else
               (case getitem (history (self w)) (- 1) of
                  Inl e \<Rightarrow> (Inl e, w)
                | Inr mine \<Rightarrow> (Inr (flip mine), w))))"

subsection \<open>Gladstein\<close>

definition Gladstein_strategy :: "('s Gladstein_scheme, 'o Player_scheme) strategy" where
  "Gladstein_strategy w =
     (if history (self w) = [] then (Inr D, w)
      else if patsy (self w) then
        (case getitem (history (opponent w)) (- 1) of
           Inl e \<Rightarrow> (Inl e, w)
         | Inr m \<Rightarrow>
             if m = D then (Inr C, w\<lparr>self := (self w)\<lparr>patsy := False\<rparr>\<rparr>)
             else
               (case truediv (cooperations (self w)) (int (length (history (self w)))) of
                  Inl e \<Rightarrow> (Inl e, w)
                | Inr cooperation_ratio \<Rightarrow>
                    if cooperation_ratio > literal 0.5 then (Inr D, w) else (Inr C, w)))
      else (getitem (history (opponent w)) (- 1), w))"

subsection \<open>MoreGrofman\<close>

text \<open>
  The loop of \<open>k86r\<close>: for each \<open>i\<close> of the range, read \<open>ioppnt[i - 1]\<close> and add one to the
  count when it is a defection.
\<close>

fun k86r_loop :: "Action list \<Rightarrow> int list \<Rightarrow> int \<Rightarrow> py_error + int" where
  "k86r_loop ioppnt [] iprev7 = Inr iprev7"
| "k86r_loop ioppnt (i # rest) iprev7 =
     (let python_index = i - 1 in
      case getitem ioppnt python_index of
        Inl e \<Rightarrow> Inl e
      | Inr m \<Rightarrow> k86r_loop ioppnt rest (iprev7 + (if m = D then 1 else 0)))"

definition k86r :: "'s Player_scheme \<Rightarrow> Action \<Rightarrow> int \<Rightarrow> Action list \<Rightarrow> py_error + Action" where
  "k86r slf jpick moven ioppnt =
     (if \<not> moven > 2 then Inr C
      else if \<not> moven > 7 then Inr jpick
      else
        (case getitem (history slf) (- 1) of
           Inl e \<Rightarrow> Inl e
         | Inr myold \<Rightarrow>
             (let j = moven - 7; k = moven - 1 in
              case k86r_loop ioppnt (py_range (j - 1) (k + 1)) 0 of
                Inl e \<Rightarrow> Inl e
              | Inr iprev7 \<Rightarrow>
                  if myold = C \<and> iprev7 \<le> 2 then Inr C
                  else if myold = C \<and> iprev7 > 2 then Inr D
                  else if myold = D \<and> iprev7 \<le> 1 then Inr C
                  else if myold = D \<and> iprev7 > 1 then Inr D
                  else Inl ReturnsNone)))"

definition MoreGrofman_strategy :: "('s Player_scheme, 'o Player_scheme) strategy" where
  "MoreGrofman_strategy w =
     (case (if length (history (opponent w)) \<ge> 1 then getitem (history (opponent w)) (- 1)
            else Inr C) of
        Inl e \<Rightarrow> (Inl e, w)
      | Inr jpick \<Rightarrow>
          (let moven = int (length (history (self w))) + 1;
               ioppnt = history (opponent w)
           in (k86r (self w) jpick moven ioppnt, w)))"

subsection \<open>The rounds of a match\<close>

text \<open>
  Modelled from the spec: the match engine is not part of the source at hand. After a round
  resolves it appends each player's move to that player's history and keeps the counts of
  cooperations and defections in step.
\<close>

definition update_history :: "'s Player_scheme \<Rightarrow> Action \<Rightarrow> 's Player_scheme" where
  "update_history p m =
     p\<lparr>history := history p @ [m],
       cooperations := cooperations p + (if m = C then 1 else 0),
       defections := defections p + (if m = D then 1 else 0)\<rparr>"

text \<open>
  A strategy played for as many rounds as the opponent has moves in the given list: each
  round calls the strategy, stops at an exception, and otherwise records both moves.
\<close>

fun play :: "('s Player_scheme, 'o Player_scheme) strategy \<Rightarrow>
    ('s Player_scheme, 'o Player_scheme) world \<Rightarrow> Action list \<Rightarrow>
    py_error + ('s Player_scheme, 'o Player_scheme) world" where
  "play strat w [] = Inr w"
| "play strat w (om # oms) =
     (case strat w of
        (Inl e, w') \<Rightarrow> Inl e
      | (Inr m, w') \<Rightarrow>
          play strat
            (w'\<lparr>self := update_history (self w') m,
                opponent := update_history (opponent w') om\<rparr>) oms)"

subsection \<open>Concrete states\<close>

text \<open>
  States of a running match, used to exercise the theorems below on actual inputs. Where
  nothing else is said the draws of the random source are all \<open>0\<close>.
\<close>

definition champion_unbounded :: "(Player, Player) world" where
  "champion_unbounded =
     \<lparr>self = \<lparr>history = [C], cooperations = 1, defections = 0,
               match_attributes = [''length'' \<mapsto> PosInf]\<rparr>,
      opponent = \<lparr>history = [D], cooperations = 0, defections = 1,
                   match_attributes = [''length'' \<mapsto> PosInf]\<rparr>,
      rand = sconst 0\<rparr>"

definition tester_provoked :: "(Tester, Player) world" where
  "tester_provoked =
     \<lparr>self = \<lparr>history = [D], cooperations = 0, defections = 1,
               match_attributes = [''length'' \<mapsto> Fin 200], is_TFT = False\<rparr>,
      opponent = \<lparr>history = [D], cooperations = 0, defections = 1,
                   match_attributes = [''length'' \<mapsto> Fin 200]\<rparr>,
      rand = sconst 0\<rparr>"

definition tester_start :: "(Tester, Player) world" where
  "tester_start =
     \<lparr>self = \<lparr>history = [], cooperations = 0, defections = 0,
               match_attributes = [''length'' \<mapsto> Fin 200], is_TFT = False\<rparr>,
      opponent = \<lparr>history = [], cooperations = 0, defections = 0,
                   match_attributes = [''length'' \<mapsto> Fin 200]\<rparr>,
      rand = sconst 0\<rparr>"

definition champion_late :: "(Player, Player) world" where
  "champion_late =
     \<lparr>self = \<lparr>history = replicate 25 C, cooperations = 25, defections = 0,
               match_attributes = [''length'' \<mapsto> Fin 200]\<rparr>,
      opponent = \<lparr>history = replicate 15 C @ replicate 10 D, cooperations = 15, defections = 10,
                   match_attributes = [''length'' \<mapsto> Fin 200]\<rparr>,
      rand = sconst 0\<rparr>"

definition eatherley_after_cooperation :: "(Player, Player) world" where
  "eatherley_after_cooperation =
     \<lparr>self = \<lparr>history = [C, C], cooperations = 2, defections = 0,
               match_attributes = [''length'' \<mapsto> Fin 200]\<rparr>,
      opponent = \<lparr>history = [D, C], cooperations = 1, defections = 1,
                   match_attributes = [''length'' \<mapsto> Fin 200]\<rparr>,
      rand = sconst 0\<rparr>"

definition eatherley_all_defections :: "(Player, Player) world" where
  "eatherley_all_defections =
     \<lparr>self = \<lparr>history = [C, D, D], cooperations = 1, defections = 2,
               match_attributes = [''length'' \<mapsto> Fin 200]\<rparr>,
      opponent = \<lparr>history = [D, D, D], cooperations = 0, defections = 3,
                   match_attributes = [''length'' \<mapsto> Fin 200]\<rparr>,
      rand = sconst 0\<rparr>"

definition gladstein_generous :: "(Gladstein, Player) world" where
  "gladstein_generous =
     \<lparr>self = \<lparr>history = [D, C, C], cooperations = 2, defections = 1,
               match_attributes = [''length'' \<mapsto> Fin 200], patsy = True\<rparr>,
      opponent = \<lparr>history = [C, C, C], cooperations = 3, defections = 0,
                   match_attributes = [''length'' \<mapsto> Fin 200]\<rparr>,
      rand = sconst 0\<rparr>"

definition gladstein_provoked :: "(Gladstein, Player) world" where
  "gladstein_provoked =
     \<lparr>self = \<lparr>history = [D, C, C], cooperations = 2, defections = 1,
               match_attributes = [''length'' \<mapsto> Fin 200], patsy = True\<rparr>,
      opponent = \<lparr>history = [C, C, D], cooperations = 2, defections = 1,
                   match_attributes = [''length'' \<mapsto> Fin 200]\<rparr>,
      rand = sconst 0\<rparr>"

text \<open>
  MoreGrofman at the start of a match, and at its ninth move after the opponent has played
  \<open>D, C, C, C, C, D, C, C\<close>.
\<close>

definition moregrofman_start :: "(Player, Player) world" where
  "moregrofman_start =
     \<lparr>self = \<lparr>history = [], cooperations = 0, defections = 0,
               match_attributes = [''length'' \<mapsto> Fin 200]\<rparr>,
      opponent = \<lparr>history = [], cooperations = 0, defections = 0,
                   match_attributes = [''length'' \<mapsto> Fin 200]\<rparr>,
      rand = sconst 0\<rparr>"

definition moregrofman_ninth_move :: "(Player, Player) world" where
  "moregrofman_ninth_move =
     \<lparr>self = \<lparr>history = [C, C, C, C, C, C, D, D], cooperations = 6, defections = 2,
               match_attributes = [''length'' \<mapsto> Fin 200]\<rparr>,
      opponent = \<lparr>history = [D, C, C, C, C, D, C, C], cooperations = 6, defections = 2,
                   match_attributes = [''length'' \<mapsto> Fin 200]\<rparr>,
      rand = sconst 0\<rparr>"

text \<open>
  Champion and Eatherley after the opponent has played \<open>C, D, D, D, D\<close>. The quotient
  \<open>4 / 5\<close> is the double \<open>3602879701896397 / 2^52\<close>, a little above four fifths, and
  \<open>1 - 4 / 5\<close> is the double \<open>3602879701896396 / 2^54\<close>, a little below one fifth; the
  next draw of the random source is that very double.
\<close>

definition champion_rounding :: "(Player, Player) world" where
  "champion_rounding =
     \<lparr>self = \<lparr>history = [C, C, C, C, C], cooperations = 5, defections = 0,
               match_attributes = [''length'' \<mapsto> Fin 40]\<rparr>,
      opponent = \<lparr>history = [C, D, D, D, D], cooperations = 1, defections = 4,
                   match_attributes = [''length'' \<mapsto> Fin 40]\<rparr>,
      rand = sconst (3602879701896397 / 4503599627370496)\<rparr>"

definition eatherley_rounding :: "(Player, Player) world" where
  "eatherley_rounding =
     \<lparr>self = \<lparr>history = [C, C, D, D, D], cooperations = 2, defections = 3,
               match_attributes = [''length'' \<mapsto> Fin 200]\<rparr>,
      opponent = \<lparr>history = [C, D, D, D, D], cooperations = 1, defections = 4,
                   match_attributes = [''length'' \<mapsto> Fin 200]\<rparr>,
      rand = sconst (3602879701896396 / 18014398509481984)\<rparr>"

text \<open>
  Champion at round 1 of a match whose length is \<open>10^400\<close>, an integer beyond the range
  of a double.
\<close>

definition huge_length :: int where
  "huge_length = 10 ^ 400"

definition champion_huge_length :: "(Player, Player) world" where
  "champion_huge_length =
     \<lparr>self = \<lparr>history = [C], cooperations = 1, defections = 0,
               match_attributes = [''length'' \<mapsto> Fin huge_length]\<rparr>,
      opponent = \<lparr>history = [C], cooperations = 1, defections = 0,
                   match_attributes = [''length'' \<mapsto> Fin huge_length]\<rparr>,
      rand = sconst 0\<rparr>"

section \<open>Properties\<close>

lemma getitem_last: "xs \<noteq> [] \<Longrightarrow> getitem xs (- 1) = Inr (last xs)"
  by (simp add: getitem_def last_conv_nth nat_diff_distrib')

lemma last_slice_nonempty: "xs \<noteq> [] \<Longrightarrow> last_slice xs = [last xs]"
  by (induction xs rule: rev_induct) (simp_all add: last_slice_def)

subsection \<open>Rounding to a double\<close>

text \<open>
  Rounding to the nearest integer and to the nearest double is monotone; a positive number
  is rounded within its binade; a magnitude below \<open>2^1023\<close> stays below the overflow bound
  and one of at least \<open>2^1024\<close> reaches it. A ratio of a count to a history of fewer than
  \<open>2^53\<close> rounds lies above one half exactly when its double does.
\<close>

lemma floor_le_rne: "\<lfloor>y\<rfloor> \<le> rne y"
  by (simp add: rne_def Let_def)

lemma rne_le_floor_add1: "rne y \<le> \<lfloor>y\<rfloor> + 1"
  by (simp add: rne_def Let_def)

lemma rne_of_int: "rne (of_int k) = k"
  by (simp add: rne_def)

lemma rne_mono:
  assumes "x \<le> y"
  shows "rne x \<le> rne y"
proof (cases "\<lfloor>x\<rfloor> = \<lfloor>y\<rfloor>")
  case True
  with assms show ?thesis
    by (auto simp add: rne_def Let_def)
next
  case False
  with assms have "\<lfloor>x\<rfloor> < \<lfloor>y\<rfloor>"
    using floor_mono [of x y] by linarith
  then have "rne x \<le> \<lfloor>y\<rfloor>"
    using rne_le_floor_add1 [of x] by linarith
  then show ?thesis
    using floor_le_rne [of y] by linarith
qed

lemma rne_above_half:
  assumes "of_int k + 1 / 2 < y"
  shows "k + 1 \<le> rne y"
proof (cases "k + 1 \<le> \<lfloor>y\<rfloor>")
  case True
  then show ?thesis using floor_le_rne [of y] by linarith
next
  case False
  moreover have "k \<le> \<lfloor>y\<rfloor>" using assms by (simp add: le_floor_iff)
  ultimately have "\<lfloor>y\<rfloor> = k" by linarith
  then show ?thesis
    using assms by (simp add: rne_def Let_def)
qed

lemma expo_bounds:
  assumes "0 < x"
  shows "2 powi (expo x) \<le> x \<and> x < 2 powi (expo x + 1)"
proof (cases "1 \<le> x")
  case True
  define m where "m = \<lfloor>x\<rfloor>"
  define b where "b = bitlen m"
  have m: "0 < m" using True by (simp add: m_def)
  from bitlen_bounds [OF m] have lo: "2 ^ nat (b - 1) \<le> m" and hi: "m < 2 ^ nat b"
    by (simp_all add: b_def)
  have b: "1 \<le> b"
    using m bitlen_eq_zero_iff [of m] bitlen_nonneg [of m] unfolding b_def by linarith
  have e: "expo x = b - 1"
    using True by (simp add: expo_def m_def b_def)
  have "real_of_int (2 ^ nat (b - 1)) \<le> real_of_int m"
    using lo by linarith
  also have "\<dots> \<le> x" by (simp add: m_def)
  finally have 1: "2 powi (b - 1) \<le> x"
    using b by (simp add: power_int_def)
  have "m + 1 \<le> 2 ^ nat b" using hi by linarith
  then have "real_of_int (m + 1) \<le> real_of_int (2 ^ nat b)" by linarith
  moreover have "x < real_of_int (m + 1)" unfolding m_def by linarith
  ultimately have 2: "x < 2 powi b"
    using b by (simp add: power_int_def)
  show ?thesis using 1 2 e by simp
next
  case False
  define y where "y = 1 / x"
  define k where "k = \<lceil>y\<rceil> - 1"
  define b where "b = bitlen k"
  have y: "1 < y" using False assms by (simp add: y_def)
  then have k: "0 < k" unfolding k_def by (simp add: less_ceiling_iff)
  from bitlen_bounds [OF k] have lo: "2 ^ nat (b - 1) \<le> k" and hi: "k < 2 ^ nat b"
    by (simp_all add: b_def)
  have b: "1 \<le> b"
    using k bitlen_eq_zero_iff [of k] bitlen_nonneg [of k] unfolding b_def by linarith
  have e: "expo x = - b"
    using False by (simp add: expo_def y_def k_def b_def)
  have "k + 1 \<le> 2 ^ nat b" using hi by linarith
  then have "real_of_int (k + 1) \<le> real_of_int (2 ^ nat b)" by linarith
  moreover have "y \<le> real_of_int (k + 1)" unfolding k_def by simp
  ultimately have "y \<le> 2 ^ nat b" by simp
  then have "1 / 2 ^ nat b \<le> x"
    using assms unfolding y_def by (simp add: field_simps)
  then have 1: "2 powi (- b) \<le> x"
    using b by (simp add: power_int_def field_simps)
  have "(2::real) ^ nat (b - 1) \<le> real_of_int k" using lo by simp
  moreover have "real_of_int k < y" unfolding k_def by linarith
  ultimately have "2 ^ nat (b - 1) < y" by linarith
  then have x: "x < 1 / 2 ^ nat (b - 1)"
    using assms unfolding y_def by (simp add: field_simps)
  have "(2::real) powi (- b + 1) = 2 powi (- (b - 1))" by simp
  also have "\<dots> = 1 / 2 powi (b - 1)" by (rule power_int_minus_divide)
  also have "\<dots> = 1 / 2 ^ nat (b - 1)" using b by (simp add: power_int_nonneg_exp)
  finally have 2: "x < 2 powi (- b + 1)" using x by simp
  show ?thesis using 1 2 e by simp
qed

lemma expo_unique:
  assumes "2 powi e \<le> x" and "x < 2 powi (e + 1)"
  shows "expo x = e"
proof -
  have pos: "0 < x"
    using assms(1) zero_less_power_int [of "2::real" e] by linarith
  from expo_bounds [OF pos] have lo: "2 powi (expo x) \<le> x" and hi: "x < 2 powi (expo x + 1)"
    by simp_all
  have "\<not> expo x < e"
  proof
    assume "expo x < e"
    then have "(2::real) powi (expo x + 1) \<le> 2 powi e"
      by (intro power_int_increasing) simp_all
    with hi assms(1) show False by linarith
  qed
  moreover have "\<not> e < expo x"
  proof
    assume "e < expo x"
    then have "(2::real) powi (e + 1) \<le> 2 powi (expo x)"
      by (intro power_int_increasing) simp_all
    with lo assms(2) show False by linarith
  qed
  ultimately show ?thesis by linarith
qed

lemma expo_mono:
  assumes "0 < x" and "x \<le> y"
  shows "expo x \<le> expo y"
proof (rule ccontr)
  assume "\<not> expo x \<le> expo y"
  then have "(2::real) powi (expo y + 1) \<le> 2 powi (expo x)"
    by (intro power_int_increasing) simp_all
  moreover have "2 powi (expo x) \<le> x" using expo_bounds [OF assms(1)] by simp
  moreover have "y < 2 powi (expo y + 1)" using expo_bounds [of y] assms by simp
  ultimately show False using assms(2) by linarith
qed

lemma ulp_ratio: "(2::real) powi (e + k) / 2 powi (e - 52) = 2 powi (k + 52)"
proof -
  have "(2::real) powi (k + 52) = 2 powi ((e + k) - (e - 52))" by simp
  also have "\<dots> = 2 powi (e + k) / 2 powi (e - 52)" by (rule power_int_diff) simp
  finally show ?thesis by simp
qed

lemma round_pos_le:
  assumes "0 < x"
  shows "round_pos x \<le> 2 powi (max (expo x) (- 1022) + 1)"
proof -
  define e where "e = max (expo x) (- 1022)"
  define ulp :: real where "ulp = 2 powi (e - 52)"
  have ulp: "0 < ulp" by (simp add: ulp_def)
  have "x < 2 powi (expo x + 1)" using expo_bounds [OF assms] by simp
  also have "\<dots> \<le> 2 powi (e + 1)" by (intro power_int_increasing) (simp_all add: e_def)
  finally have "x / ulp \<le> 2 powi (e + 1) / ulp"
    using ulp by (simp add: divide_right_mono)
  also have "\<dots> = 2 powi 53" unfolding ulp_def using ulp_ratio [of e 1] by simp
  also have "\<dots> = real_of_int (2 ^ 53)" by simp
  finally have "rne (x / ulp) \<le> rne (real_of_int (2 ^ 53))" by (rule rne_mono)
  then have "rne (x / ulp) \<le> 2 ^ 53" by (simp only: rne_of_int)
  then have "real_of_int (rne (x / ulp)) \<le> 2 powi 53" by simp
  then have "real_of_int (rne (x / ulp)) * ulp \<le> 2 powi 53 * ulp"
    using ulp by (simp add: mult_right_mono)
  also have "2 powi 53 * ulp = 2 powi (e + 1)"
    using ulp_ratio [of e 1] ulp unfolding ulp_def by (simp add: field_simps)
  finally show ?thesis
    by (simp add: round_pos_def Let_def e_def ulp_def)
qed

lemma round_pos_ge:
  assumes "0 < x" and "- 1022 \<le> expo x"
  shows "2 powi (expo x) \<le> round_pos x"
proof -
  define e where "e = expo x"
  define ulp :: real where "ulp = 2 powi (e - 52)"
  have ulp: "0 < ulp" by (simp add: ulp_def)
  have m: "max (expo x) (- 1022) = e" using assms(2) by (simp add: e_def)
  have "2 powi e \<le> x" using expo_bounds [OF assms(1)] by (simp add: e_def)
  then have "2 powi e / ulp \<le> x / ulp"
    using ulp by (simp add: divide_right_mono)
  moreover have "2 powi e / ulp = 2 powi 52" unfolding ulp_def using ulp_ratio [of e 0] by simp
  moreover have "(2::real) powi 52 = real_of_int (2 ^ 52)" by simp
  ultimately have "rne (real_of_int (2 ^ 52)) \<le> rne (x / ulp)"
    by (intro rne_mono) simp
  then have "2 ^ 52 \<le> rne (x / ulp)" by (simp only: rne_of_int)
  then have "real_of_int (2 ^ 52) \<le> real_of_int (rne (x / ulp))" by (simp only: of_int_le_iff)
  then have "real_of_int (2 ^ 52) * ulp \<le> real_of_int (rne (x / ulp)) * ulp"
    using ulp by (simp only: mult_le_cancel_right_pos)
  moreover have "real_of_int (2 ^ 52) * ulp = 2 powi e"
    using ulp_ratio [of e 0] ulp unfolding ulp_def by (simp add: field_simps)
  moreover have "round_pos x = real_of_int (rne (x / ulp)) * ulp"
    using m by (simp add: round_pos_def Let_def e_def ulp_def)
  ultimately show ?thesis
    unfolding e_def by linarith
qed

lemma round_pos_nonneg:
  assumes "0 \<le> x"
  shows "0 \<le> round_pos x"
proof -
  define ulp :: real where "ulp = 2 powi (max (expo x) (- 1022) - 52)"
  have ulp: "0 < ulp" by (simp add: ulp_def)
  then have "real_of_int 0 \<le> x / ulp" using assms by simp
  then have "rne (real_of_int 0) \<le> rne (x / ulp)" by (rule rne_mono)
  then have "0 \<le> rne (x / ulp)" by (simp only: rne_of_int)
  then show ?thesis
    using ulp by (simp add: round_pos_def Let_def ulp_def)
qed

lemma round_pos_mono:
  assumes "0 < x" and "x \<le> y"
  shows "round_pos x \<le> round_pos y"
proof -
  define ex where "ex = max (expo x) (- 1022)"
  define ey where "ey = max (expo y) (- 1022)"
  have y: "0 < y" using assms by linarith
  have le: "ex \<le> ey"
    using expo_mono [OF assms] by (simp add: ex_def ey_def)
  show ?thesis
  proof (cases "ex = ey")
    case True
    define ulp :: real where "ulp = 2 powi (ex - 52)"
    have ulp: "0 < ulp" by (simp add: ulp_def)
    have "x / ulp \<le> y / ulp" using assms(2) ulp by (simp add: divide_right_mono)
    then have "rne (x / ulp) \<le> rne (y / ulp)" by (rule rne_mono)
    then have "real_of_int (rne (x / ulp)) * ulp \<le> real_of_int (rne (y / ulp)) * ulp"
      using ulp by (simp add: mult_right_mono)
    then show ?thesis
      using True by (simp add: round_pos_def Let_def ex_def ey_def ulp_def)
  next
    case False
    with le have lt: "ex < ey" by linarith
    then have ey: "expo y = ey" "- 1022 \<le> expo y"
      by (auto simp add: ex_def ey_def max_def split: if_splits)
    have "round_pos x \<le> 2 powi (ex + 1)"
      using round_pos_le [OF assms(1)] by (simp add: ex_def)
    also have "\<dots> \<le> 2 powi ey"
      using lt by (intro power_int_increasing) simp_all
    also have "\<dots> \<le> round_pos y"
      using round_pos_ge [OF y ey(2)] ey(1) by simp
    finally show ?thesis .
  qed
qed

lemma round_double_zero: "round_double 0 = 0"
  by (simp add: round_double_def)

lemma round_double_minus: "round_double (- x) = - round_double x"
  by (simp add: round_double_def)

lemma round_double_nonneg: "0 \<le> x \<Longrightarrow> 0 \<le> round_double x"
  by (simp add: round_double_def round_pos_nonneg)

lemma round_double_mono:
  assumes "x \<le> y"
  shows "round_double x \<le> round_double y"
proof -
  consider "0 < x" | "x \<le> 0" "0 \<le> y" | "y < 0" using assms by linarith
  then show ?thesis
  proof cases
    case 1
    with assms show ?thesis by (simp add: round_double_def round_pos_mono)
  next
    case 2
    have "round_double x \<le> 0"
      using 2(1) round_double_nonneg [of "- x"] by (simp add: round_double_minus)
    also have "0 \<le> round_double y" using 2(2) by (rule round_double_nonneg)
    finally show ?thesis .
  next
    case 3
    then have "0 < - y" "- y \<le> - x" using assms by simp_all
    then have "round_pos (- y) \<le> round_pos (- x)" by (rule round_pos_mono)
    with 3 assms show ?thesis by (simp add: round_double_def)
  qed
qed

lemma round_double_abs: "\<bar>round_double x\<bar> = round_double \<bar>x\<bar>"
proof (cases "0 \<le> x")
  case True
  then show ?thesis using round_double_nonneg [of x] by simp
next
  case False
  then show ?thesis
    using round_double_nonneg [of "- x"] by (simp add: round_double_minus abs_if)
qed

lemma round_double_bounded:
  assumes "\<bar>x\<bar> < 2 powi 1023"
  shows "\<bar>round_double x\<bar> < overflow_bound"
proof (cases "x = 0")
  case True
  then show ?thesis by (simp add: round_double_zero overflow_bound_def)
next
  case False
  then have pos: "0 < \<bar>x\<bar>" by simp
  have "expo \<bar>x\<bar> < 1023"
  proof (rule ccontr)
    assume "\<not> expo \<bar>x\<bar> < 1023"
    then have "(2::real) powi 1023 \<le> 2 powi (expo \<bar>x\<bar>)"
      by (intro power_int_increasing) simp_all
    also have "\<dots> \<le> \<bar>x\<bar>" using expo_bounds [OF pos] by simp
    finally show False using assms by linarith
  qed
  then have "max (expo \<bar>x\<bar>) (- 1022) + 1 \<le> 1023" by simp
  then have "(2::real) powi (max (expo \<bar>x\<bar>) (- 1022) + 1) \<le> 2 powi 1023"
    by (intro power_int_increasing) simp_all
  with round_pos_le [OF pos] have "round_pos \<bar>x\<bar> \<le> 2 powi 1023" by linarith
  moreover have "(2::real) powi 1023 < 2 powi 1024"
    by (intro power_int_strict_increasing) simp_all
  moreover have "\<bar>round_double x\<bar> = round_pos \<bar>x\<bar>"
    using pos unfolding round_double_abs by (simp add: round_double_def)
  ultimately show ?thesis unfolding overflow_bound_def by linarith
qed

lemma round_double_overflow:
  assumes "overflow_bound \<le> \<bar>x\<bar>"
  shows "overflow_bound \<le> \<bar>round_double x\<bar>"
proof -
  have big: "2 powi 1024 \<le> \<bar>x\<bar>"
    using assms by (simp only: overflow_bound_def)
  have pos: "0 < \<bar>x\<bar>"
    using big zero_less_power_int [of "2::real" 1024] by linarith
  have e: "1024 \<le> expo \<bar>x\<bar>"
  proof (rule ccontr)
    assume "\<not> 1024 \<le> expo \<bar>x\<bar>"
    then have "(2::real) powi (expo \<bar>x\<bar> + 1) \<le> 2 powi 1024"
      by (intro power_int_increasing) simp_all
    moreover have "\<bar>x\<bar> < 2 powi (expo \<bar>x\<bar> + 1)" using expo_bounds [OF pos] by simp
    ultimately show False using big by linarith
  qed
  then have "(2::real) powi 1024 \<le> 2 powi (expo \<bar>x\<bar>)"
    by (intro power_int_increasing) simp_all
  also have "\<dots> \<le> round_pos \<bar>x\<bar>"
    using e by (intro round_pos_ge [OF pos]) simp
  finally have "2 powi 1024 \<le> round_pos \<bar>x\<bar>" .
  moreover have "\<bar>round_double x\<bar> = round_pos \<bar>x\<bar>"
    using pos unfolding round_double_abs by (simp add: round_double_def)
  ultimately show ?thesis unfolding overflow_bound_def by linarith
qed

lemmas fl_eval = round_double_def round_pos_def expo_def compute_bitlen rne_def power_int_def
  Let_def power_divide

lemma round_double_half: "round_double (1 / 2) = 1 / 2"
  by (simp add: fl_eval)

lemma round_double_one: "round_double 1 = 1"
  by (simp add: fl_eval)

lemma round_double_above_half:
  assumes "1 / 2 + 1 / 2 ^ 54 < x" and "x < 1"
  shows "1 / 2 < round_double x"
proof -
  have e: "expo x = - 1"
    using assms by (intro expo_unique) (simp_all add: power_int_minus_divide)
  have ulp: "(2::real) powi (- 1 - 52) = 1 / 2 ^ 53"
    by (simp add: power_int_minus_divide)
  have "real_of_int (2 ^ 52) + 1 / 2 < x / (1 / 2 ^ 53)"
    using assms(1) by simp
  then have "2 ^ 52 + 1 \<le> rne (x / (1 / 2 ^ 53))" by (rule rne_above_half)
  then have "real_of_int (2 ^ 52 + 1) \<le> real_of_int (rne (x / (1 / 2 ^ 53)))"
    by (simp only: of_int_le_iff)
  then have "real_of_int (2 ^ 52 + 1) * (1 / 2 ^ 53) \<le> real_of_int (rne (x / (1 / 2 ^ 53))) * (1 / 2 ^ 53)"
    by (rule mult_right_mono) simp
  moreover have "(1::real) / 2 < real_of_int (2 ^ 52 + 1) * (1 / 2 ^ 53)" by simp
  moreover have "round_double x = real_of_int (rne (x / (1 / 2 ^ 53))) * (1 / 2 ^ 53)"
    using assms(1) e ulp by (simp add: round_double_def round_pos_def Let_def)
  ultimately show ?thesis by linarith
qed

lemma ratio_above_half_exact:
  assumes "0 \<le> a" and "a \<le> int n" and "0 < n" and "n < 2 ^ 53"
  shows "(1 / 2 < round_double (real_of_int a / real n)) = (1 / 2 < real_of_int a / real n)"
proof
  assume r: "1 / 2 < round_double (real_of_int a / real n)"
  show "1 / 2 < real_of_int a / real n"
  proof (rule ccontr)
    assume "\<not> 1 / 2 < real_of_int a / real n"
    then have "real_of_int a / real n \<le> 1 / 2" by simp
    then have "round_double (real_of_int a / real n) \<le> round_double (1 / 2)"
      by (rule round_double_mono)
    with r show False by (simp add: round_double_half)
  qed
next
  assume x: "1 / 2 < real_of_int a / real n"
  show "1 / 2 < round_double (real_of_int a / real n)"
  proof (cases "a = int n")
    case True
    with assms(3) show ?thesis by (simp add: round_double_one)
  next
    case False
    with assms have lt: "real_of_int a / real n < 1" by simp
    from x assms(3) have "real n < 2 * real_of_int a" by (simp add: field_simps)
    then have "int n < 2 * a" by linarith
    then have "int n + 1 \<le> 2 * a" by linarith
    then have "real n + 1 \<le> 2 * real_of_int a" by linarith
    then have "(real n + 1) / (2 * real n) \<le> (2 * real_of_int a) / (2 * real n)"
      by (rule divide_right_mono) simp
    moreover have "(real n + 1) / (2 * real n) = 1 / 2 + 1 / (2 * real n)"
      using assms(3) by (simp add: add_divide_distrib)
    ultimately have "1 / 2 + 1 / (2 * real n) \<le> real_of_int a / real n"
      by simp
    moreover have "(1::real) / 2 ^ 54 < 1 / (2 * real n)"
    proof -
      have "real n < 2 ^ 53" using assms(4) by (metis of_nat_less_iff of_nat_numeral of_nat_power)
      then have "2 * real n < 2 ^ 54" by simp
      then show ?thesis using assms(3) by (simp add: field_simps)
    qed
    ultimately have "1 / 2 + 1 / 2 ^ 54 < real_of_int a / real n" by linarith
    then show ?thesis using lt by (rule round_double_above_half)
  qed
qed

lemma truediv_value:
  assumes "truediv a b = Inr q"
  shows "b \<noteq> 0 \<and> q = round_double (real_of_int a / real_of_int b) \<and> \<bar>q\<bar> < overflow_bound"
  using assms by (auto simp add: truediv_def Let_def split: if_splits)

lemma truediv_in_range:
  assumes "b \<noteq> 0" and "\<bar>real_of_int a / real_of_int b\<bar> < 2 powi 1023"
  shows "truediv a b = Inr (round_double (real_of_int a / real_of_int b))"
  using assms(1) round_double_bounded [OF assms(2)] by (simp add: truediv_def Let_def)

lemma truediv_ratio:
  assumes "0 \<le> a" and "a \<le> int n" and "0 < n"
  shows "truediv a (int n) = Inr (round_double (real_of_int a / real n))"
proof -
  have "real_of_int a / real n \<le> 1" using assms by simp
  moreover have "0 \<le> real_of_int a / real n" using assms by simp
  moreover have "(1::real) < 2 powi 1023" by simp
  ultimately have "\<bar>real_of_int a / real_of_int (int n)\<bar> < 2 powi 1023" by simp
  with assms(3) truediv_in_range [of "int n" a] show ?thesis by simp
qed

lemma truediv_not_zero_division:
  "b \<noteq> 0 \<Longrightarrow> truediv a b \<noteq> Inl ZeroDivisionError"
  by (simp add: truediv_def Let_def)

subsection \<open>Champion with an unbounded match length\<close>

text \<open>
  C1, as the claim states it, fails: with the length attribute \<open>float('inf')\<close> both
  quotients are again infinite and nothing is raised, so at round 1 the comparison
  \<open>current_round < expected_length / 20\<close> is true, not false. In the state below the
  opponent has just defected, its defection rate is 1 and the next draw is 0, so the final
  phase would answer Defect; Champion answers Cooperate and takes no draw.
\<close>

theorem Champion_unbounded_counterexample:
  "num_div PosInf 20 = Inr Infinity
   \<and> num_div (num_mul PosInf 5) 40 = Inr Infinity
   \<and> round_lt 1 Infinity
   \<and> getitem (history (opponent champion_unbounded)) (- 1) = Inr D
   \<and> truediv (defections (opponent champion_unbounded))
        (int (length (history (opponent champion_unbounded)))) = Inr 1
   \<and> 1 \<ge> max (literal 0.4) (fst (random (rand champion_unbounded)))
   \<and> Champion_strategy champion_unbounded = (Inr C, champion_unbounded)"
proof -
  have "truediv (defections (opponent champion_unbounded))
        (int (length (history (opponent champion_unbounded)))) = Inr 1"
    by (simp add: champion_unbounded_def truediv_def overflow_bound_def fl_eval)
  moreover have "1 \<ge> max (literal 0.4) (fst (random (rand champion_unbounded)))"
    by (simp add: champion_unbounded_def random_def literal_def fl_eval)
  moreover have "Champion_strategy champion_unbounded = (Inr C, champion_unbounded)"
    by (simp add: champion_unbounded_def Champion_strategy_def round_lt_def)
  moreover have "getitem (history (opponent champion_unbounded)) (- 1) = Inr D"
    by (simp add: champion_unbounded_def getitem_def)
  ultimately show ?thesis by (simp add: round_lt_def)
qed

text \<open>
  C1, amended: with an unbounded match length the division \<open>expected_length / 20\<close> raises
  nothing and is infinite, the comparison \<open>current_round < expected_length / 20\<close> is true at
  every round index, and so Champion returns Cooperate in every round, leaves the state as it
  is, and reaches neither the mirror phase nor the probabilistic phase.
\<close>

theorem Champion_unbounded_always_cooperates:
  assumes "match_attributes (self w) ''length'' = Some PosInf"
  shows "num_div PosInf 20 = Inr Infinity \<and> round_lt n Infinity
    \<and> Champion_strategy w = (Inr C, w)"
  using assms by (simp add: Champion_strategy_def Let_def round_lt_def)

theorem Champion_unbounded_always_cooperates_witness:
  "match_attributes (self champion_unbounded) ''length'' = Some PosInf
   \<and> num_div PosInf 20 = Inr Infinity \<and> round_lt 1 Infinity
   \<and> Champion_strategy champion_unbounded = (Inr C, champion_unbounded)"
proof -
  have len: "match_attributes (self champion_unbounded) ''length'' = Some PosInf"
    by (simp add: champion_unbounded_def)
  show ?thesis
    using len Champion_unbounded_always_cooperates [OF len, of 1] by simp
qed

subsection \<open>Champion's final phase\<close>

text \<open>
  A round index of at least 1 that is not below \<open>expected_length * 5 / 40\<close> is not below
  \<open>expected_length / 20\<close> either, and the second division raises nothing when the first
  does not: rounding is monotone.
\<close>

lemma past_mirror_phase_past_first:
  assumes "1 \<le> n" and "num_div (num_mul len 5) 40 = Inr t2" and "\<not> round_lt n t2"
  shows "\<exists>t1. num_div len 20 = Inr t1 \<and> \<not> round_lt n t1"
proof (cases len)
  case (Fin x)
  define q2 where "q2 = round_double (real_of_int (x * 5) / real_of_int 40)"
  define q1 where "q1 = round_double (real_of_int x / real_of_int 20)"
  from assms(2) Fin obtain q where q: "truediv (x * 5) 40 = Inr q" and t2: "t2 = Finite q"
    by (auto split: sum.splits)
  from truediv_value [OF q] have q2: "q = q2" "\<bar>q2\<bar> < overflow_bound"
    by (auto simp add: q2_def)
  from assms(3) t2 q2 have le: "q2 \<le> real n" by (simp add: round_lt_def)
  have "\<bar>q1\<bar> \<le> \<bar>q2\<bar> \<and> q1 \<le> real n"
  proof (cases "0 \<le> x")
    case True
    then have "real_of_int x / real_of_int 20 \<le> real_of_int (x * 5) / real_of_int 40" by simp
    then have "q1 \<le> q2" unfolding q1_def q2_def by (rule round_double_mono)
    moreover have "0 \<le> q1" unfolding q1_def using True by (intro round_double_nonneg) simp
    ultimately show ?thesis using le by simp
  next
    case False
    then have "real_of_int (x * 5) / real_of_int 40 \<le> real_of_int x / real_of_int 20" by simp
    then have "q2 \<le> q1" unfolding q1_def q2_def by (rule round_double_mono)
    moreover have "real_of_int x / real_of_int 20 \<le> 0" using False by simp
    then have "q1 \<le> round_double 0" unfolding q1_def by (rule round_double_mono)
    then have "q1 \<le> 0" by (simp add: round_double_zero)
    ultimately show ?thesis using assms(1) by simp
  qed
  with q2(2) have "\<bar>q1\<bar> < overflow_bound" "q1 \<le> real n" by simp_all
  then have "num_div len 20 = Inr (Finite q1) \<and> \<not> round_lt n (Finite q1)"
    using Fin by (simp add: truediv_def Let_def q1_def round_lt_def)
  then show ?thesis by blast
next
  case PosInf
  with assms show ?thesis by (simp add: round_lt_def)
qed

text \<open>
  C4: in the final phase, that is at a round index of at least 1 that is not below
  \<open>expected_length * 5 / 40\<close>, and with \<open>defection_prop\<close> the double that
  \<open>opponent.defections / len(opponent.history)\<close> evaluates to, Champion returns Defect
  exactly when the opponent's previous move was Defect and \<open>defection_prop\<close> is at least
  \<open>max(0.4, r)\<close>, where \<open>0.4\<close> is the double of that literal and \<open>r\<close> the next draw
  of the random source; in every other case it returns Cooperate.
\<close>

theorem Champion_final_phase:
  assumes "match_attributes (self w) ''length'' = Some expected_length"
    and "1 \<le> length (history (self w))"
    and "num_div (num_mul expected_length 5) 40 = Inr threshold"
    and "\<not> round_lt (length (history (self w))) threshold"
    and "truediv (defections (opponent w)) (int (length (history (opponent w))))
           = Inr defection_prop"
  shows "fst (Champion_strategy w) =
    Inr (if last (history (opponent w)) = D
            \<and> defection_prop \<ge> max (literal 0.4) (fst (random (rand w)))
         then D else C)"
proof -
  from past_mirror_phase_past_first [OF assms(2,3,4)] obtain t1 where
    t1: "num_div expected_length 20 = Inr t1" "\<not> round_lt (length (history (self w))) t1"
    by blast
  have "history (self w) \<noteq> []"
    using assms(2) by auto
  moreover have "history (opponent w) \<noteq> []"
    using truediv_value [OF assms(5)] by simp
  ultimately show ?thesis
    using assms(1,3,4,5) t1
    by (simp add: Champion_strategy_def Let_def getitem_last random_def)
qed

theorem Champion_final_phase_witness:
  "match_attributes (self champion_rounding) ''length'' = Some (Fin 40)
   \<and> 1 \<le> length (history (self champion_rounding))
   \<and> num_div (num_mul (Fin 40) 5) 40 = Inr (Finite 5)
   \<and> \<not> round_lt (length (history (self champion_rounding))) (Finite 5)
   \<and> truediv (defections (opponent champion_rounding))
        (int (length (history (opponent champion_rounding))))
       = Inr (3602879701896397 / 4503599627370496)
   \<and> fst (Champion_strategy champion_rounding) = Inr D"
proof -
  have pre: "match_attributes (self champion_rounding) ''length'' = Some (Fin 40)"
    "1 \<le> length (history (self champion_rounding))"
    "num_div (num_mul (Fin 40) 5) 40 = Inr (Finite 5)"
    "\<not> round_lt (length (history (self champion_rounding))) (Finite 5)"
    "truediv (defections (opponent champion_rounding))
        (int (length (history (opponent champion_rounding))))
       = Inr (3602879701896397 / 4503599627370496)"
    by (simp_all add: champion_rounding_def round_lt_def truediv_def overflow_bound_def fl_eval)
  have opp: "last (history (opponent champion_rounding)) = D"
    "fst (random (rand champion_rounding)) = 3602879701896397 / 4503599627370496"
    "literal (2 / 5) = 3602879701896397 / 9007199254740992"
    by (simp_all add: champion_rounding_def random_def literal_def fl_eval)
  show ?thesis
    using pre Champion_final_phase [OF pre] by (simp add: opp)
qed

subsection \<open>Eatherley\<close>

text \<open>
  C5: when the opponent has a previous move, Eatherley returns Cooperate after a
  cooperation, and then takes no draw and changes nothing; after a defection it returns
  \<open>random_choice(1 - defection_prop)\<close>, with \<open>defection_prop\<close> the double that
  \<open>opponent.defections / len(opponent.history)\<close> evaluates to and the difference taken on
  floats, which is Cooperate exactly when the draw \<open>r\<close> is below that difference. Against
  a history of defections only, counted as such, it therefore returns Defect whatever the
  draw in \<open>[0, 1)\<close> is.
\<close>

theorem Eatherley_response:
  assumes "history (opponent w) \<noteq> []"
  shows "(last (history (opponent w)) = C \<longrightarrow> Eatherley_strategy w = (Inr C, w))
    \<and> (last (history (opponent w)) = D
        \<and> truediv (defections (opponent w)) (int (length (history (opponent w))))
            = Inr defection_prop
       \<longrightarrow> fst (Eatherley_strategy w)
            = Inr (fst (random_choice (float_sub 1 defection_prop) (rand w))))
    \<and> fst (random_choice p (rand w)) = (if lt_float (fst (random (rand w))) p then C else D)
    \<and> (set (history (opponent w)) \<subseteq> {D}
        \<and> defections (opponent w) = int (count_list (history (opponent w)) D)
        \<and> 0 \<le> fst (random (rand w))
       \<longrightarrow> fst (Eatherley_strategy w) = Inr D)"
proof -
  have coop: "Eatherley_strategy w = (Inr C, w)" if "last (history (opponent w)) = C"
    using assms that by (simp add: Eatherley_strategy_def getitem_last)
  have defect: "fst (Eatherley_strategy w)
      = Inr (fst (random_choice (float_sub 1 defection_prop) (rand w)))"
    if "last (history (opponent w)) = D"
      and "truediv (defections (opponent w)) (int (length (history (opponent w))))
            = Inr defection_prop"
    for defection_prop
    using assms that
    by (simp add: Eatherley_strategy_def getitem_last split: prod.split)
  have rc: "fst (random_choice p (rand w)) = (if lt_float (fst (random (rand w))) p then C else D)"
    for p
    by (simp add: random_choice_def random_def)
  have "fst (Eatherley_strategy w) = Inr D"
    if all: "set (history (opponent w)) \<subseteq> {D}"
      and cnt: "defections (opponent w) = int (count_list (history (opponent w)) D)"
      and r: "0 \<le> fst (random (rand w))"
  proof -
    have "count_list xs D = length xs" if "set xs \<subseteq> {D}" for xs
      using that by (induction xs) auto
    with all cnt have d: "defections (opponent w) = int (length (history (opponent w)))"
      by simp
    have "last (history (opponent w)) \<in> set (history (opponent w))"
      using assms by simp
    with all have l: "last (history (opponent w)) = D" by blast
    have "truediv (defections (opponent w)) (int (length (history (opponent w)))) = Inr 1"
      using assms d by (simp add: truediv_def round_double_one overflow_bound_def)
    from defect [OF l this] have "fst (Eatherley_strategy w)
        = Inr (fst (random_choice (float_sub 1 1) (rand w)))" .
    moreover have "float_sub 1 1 = Finite 0"
      by (simp add: float_sub_def to_float_def round_double_zero overflow_bound_def)
    ultimately show ?thesis
      using r by (simp add: rc)
  qed
  with coop defect rc show ?thesis by blast
qed

theorem Eatherley_response_witness:
  "history (opponent eatherley_after_cooperation) \<noteq> []
   \<and> last (history (opponent eatherley_after_cooperation)) = C
   \<and> Eatherley_strategy eatherley_after_cooperation = (Inr C, eatherley_after_cooperation)
   \<and> history (opponent eatherley_rounding) \<noteq> []
   \<and> last (history (opponent eatherley_rounding)) = D
   \<and> truediv (defections (opponent eatherley_rounding))
        (int (length (history (opponent eatherley_rounding))))
       = Inr (3602879701896397 / 4503599627370496)
   \<and> float_sub 1 (3602879701896397 / 4503599627370496)
       = Finite (3602879701896396 / 18014398509481984)
   \<and> fst (Eatherley_strategy eatherley_rounding) = Inr D
   \<and> history (opponent eatherley_all_defections) \<noteq> []
   \<and> set (history (opponent eatherley_all_defections)) \<subseteq> {D}
   \<and> defections (opponent eatherley_all_defections)
       = int (count_list (history (opponent eatherley_all_defections)) D)
   \<and> 0 \<le> fst (random (rand eatherley_all_defections))
   \<and> fst (Eatherley_strategy eatherley_all_defections) = Inr D"
proof -
  have c: "history (opponent eatherley_after_cooperation) \<noteq> []"
    "last (history (opponent eatherley_after_cooperation)) = C"
    by (simp_all add: eatherley_after_cooperation_def)
  have e: "history (opponent eatherley_rounding) \<noteq> []"
    "last (history (opponent eatherley_rounding)) = D"
    "truediv (defections (opponent eatherley_rounding))
        (int (length (history (opponent eatherley_rounding))))
       = Inr (3602879701896397 / 4503599627370496)"
    by (simp_all add: eatherley_rounding_def truediv_def overflow_bound_def fl_eval)
  have sub: "float_sub 1 (3602879701896397 / 4503599627370496)
       = Finite (3602879701896396 / 18014398509481984)"
    by (simp add: float_sub_def to_float_def overflow_bound_def fl_eval)
  have draw: "fst (random (rand eatherley_rounding)) = 3602879701896396 / 18014398509481984"
    by (simp add: eatherley_rounding_def random_def)
  have d: "history (opponent eatherley_all_defections) \<noteq> []"
    "set (history (opponent eatherley_all_defections)) \<subseteq> {D}"
    "defections (opponent eatherley_all_defections)
       = int (count_list (history (opponent eatherley_all_defections)) D)"
    "0 \<le> fst (random (rand eatherley_all_defections))"
    by (simp_all add: eatherley_all_defections_def random_def)
  have "Eatherley_strategy eatherley_after_cooperation = (Inr C, eatherley_after_cooperation)"
    using Eatherley_response [OF c(1)] c(2) by blast
  moreover have "fst (Eatherley_strategy eatherley_rounding) = Inr D"
  proof -
    from Eatherley_response [OF e(1),
        of "3602879701896397 / 4503599627370496" "Finite (3602879701896396 / 18014398509481984)"]
      e(2,3)
    have "fst (Eatherley_strategy eatherley_rounding)
        = Inr (fst (random_choice (float_sub 1 (3602879701896397 / 4503599627370496))
                 (rand eatherley_rounding)))"
      and "fst (random_choice (Finite (3602879701896396 / 18014398509481984))
                 (rand eatherley_rounding))
        = (if lt_float (fst (random (rand eatherley_rounding)))
                (Finite (3602879701896396 / 18014398509481984)) then C else D)"
      by blast+
    then show ?thesis by (simp add: sub draw)
  qed
  moreover have "fst (Eatherley_strategy eatherley_all_defections) = Inr D"
    using Eatherley_response [OF d(1)] d(2,3,4) by blast
  ultimately show ?thesis
    using c e sub d by blast
qed

subsection \<open>Gladstein\<close>

text \<open>
  C6: in a round with a non-empty own history, the \<open>patsy\<close> flag set and a previous move of
  the opponent to look at: if that move was Defect, Gladstein clears \<open>patsy\<close> and returns
  Cooperate; otherwise it leaves its state alone and returns Defect if
  \<open>cooperations / len(history)\<close> of its own record is above 0.5, Cooperate if not. The
  ratio is the exact one: for a count between 0 and the length of a history of fewer than
  \<open>2^53\<close> rounds, as the match engine keeps it, the double that Python compares lies
  above 0.5 exactly when the exact ratio does.
\<close>

theorem Gladstein_patsy_phase:
  assumes "history (self w) \<noteq> []" and "patsy (self w)" and "history (opponent w) \<noteq> []"
    and "last (history (opponent w)) = D
      \<or> (0 \<le> cooperations (self w) \<and> cooperations (self w) \<le> int (length (history (self w)))
          \<and> length (history (self w)) < 2 ^ 53)"
  shows "Gladstein_strategy w =
    (if last (history (opponent w)) = D then (Inr C, w\<lparr>self := (self w)\<lparr>patsy := False\<rparr>\<rparr>)
     else (Inr (if real_of_int (cooperations (self w)) / real (length (history (self w))) > 0.5
                then D else C), w))"
proof (cases "last (history (opponent w)) = D")
  case True
  with assms(1,2,3) show ?thesis
    by (simp add: Gladstein_strategy_def getitem_last)
next
  case False
  with assms(4) have eng: "0 \<le> cooperations (self w)"
    "cooperations (self w) \<le> int (length (history (self w)))"
    "length (history (self w)) < 2 ^ 53"
    by simp_all
  have n: "0 < length (history (self w))" using assms(1) by simp
  have div: "truediv (cooperations (self w)) (int (length (history (self w))))
      = Inr (round_double (real_of_int (cooperations (self w)) / real (length (history (self w)))))"
    using eng(1,2) n by (rule truediv_ratio)
  have cmp: "(literal 0.5
        < round_double (real_of_int (cooperations (self w)) / real (length (history (self w)))))
      = (1 / 2 < real_of_int (cooperations (self w)) / real (length (history (self w))))"
    using ratio_above_half_exact [OF eng(1,2) n eng(3)]
    by (simp add: literal_def round_double_half)
  show ?thesis
    using False assms(1,2,3) cmp
    by (simp add: Gladstein_strategy_def getitem_last div)
qed

theorem Gladstein_patsy_phase_witness:
  "history (self gladstein_generous) \<noteq> [] \<and> patsy (self gladstein_generous)
   \<and> history (opponent gladstein_generous) \<noteq> []
   \<and> 0 \<le> cooperations (self gladstein_generous)
   \<and> cooperations (self gladstein_generous) \<le> int (length (history (self gladstein_generous)))
   \<and> length (history (self gladstein_generous)) < 2 ^ 53
   \<and> Gladstein_strategy gladstein_generous = (Inr D, gladstein_generous)
   \<and> history (self gladstein_provoked) \<noteq> [] \<and> patsy (self gladstein_provoked)
   \<and> history (opponent gladstein_provoked) \<noteq> []
   \<and> last (history (opponent gladstein_provoked)) = D
   \<and> fst (Gladstein_strategy gladstein_provoked) = Inr C
   \<and> \<not> patsy (self (snd (Gladstein_strategy gladstein_provoked)))"
proof -
  have g: "history (self gladstein_generous) \<noteq> []" "patsy (self gladstein_generous)"
    "history (opponent gladstein_generous) \<noteq> []"
    by (simp_all add: gladstein_generous_def)
  have ge: "0 \<le> cooperations (self gladstein_generous)
      \<and> cooperations (self gladstein_generous) \<le> int (length (history (self gladstein_generous)))
      \<and> length (history (self gladstein_generous)) < 2 ^ 53"
    by (simp add: gladstein_generous_def)
  have p: "history (self gladstein_provoked) \<noteq> []" "patsy (self gladstein_provoked)"
    "history (opponent gladstein_provoked) \<noteq> []"
    by (simp_all add: gladstein_provoked_def)
  have gv: "last (history (opponent gladstein_generous)) = C"
    "cooperations (self gladstein_generous) = 2" "length (history (self gladstein_generous)) = 3"
    by (simp_all add: gladstein_generous_def)
  have pv: "last (history (opponent gladstein_provoked)) = D"
    by (simp add: gladstein_provoked_def)
  have "Gladstein_strategy gladstein_generous = (Inr D, gladstein_generous)"
    using Gladstein_patsy_phase [OF g disjI2 [OF ge]] by (simp add: gv)
  moreover have "fst (Gladstein_strategy gladstein_provoked) = Inr C
      \<and> \<not> patsy (self (snd (Gladstein_strategy gladstein_provoked)))"
    using Gladstein_patsy_phase [OF p disjI1 [OF pv]] by (simp add: pv)
  ultimately show ?thesis
    using g ge p pv by blast
qed

subsection \<open>MoreGrofman's window\<close>

text \<open>
  What the loop of \<open>k86r\<close> computes in general: from move number 9 on, with the opponent's
  history one shorter than the move number, it reads the last eight moves of the opponent
  and counts the defections among them.
\<close>

lemma k86r_loop_in_range:
  "\<forall>i\<in>set idx. 1 \<le> i \<and> i \<le> int (length xs) \<Longrightarrow>
   k86r_loop xs idx acc = Inr (acc + int (count_list (map (\<lambda>i. xs ! nat (i - 1)) idx) D))"
  by (induction idx arbitrary: acc) (auto simp add: getitem_def Let_def)

lemma last_eight_positions:
  assumes "8 \<le> length xs"
  shows "map (\<lambda>i. xs ! nat (i - 1)) [int (length xs) - 7 .. int (length xs)]
    = drop (length xs - 8) xs"
proof (rule nth_equalityI)
  show "length (map (\<lambda>i. xs ! nat (i - 1)) [int (length xs) - 7 .. int (length xs)])
      = length (drop (length xs - 8) xs)"
    using assms by simp
next
  fix k assume "k < length (map (\<lambda>i. xs ! nat (i - 1)) [int (length xs) - 7 .. int (length xs)])"
  then have k: "k < 8" by simp
  then have "[int (length xs) - 7 .. int (length xs)] ! k = int (length xs) - 7 + int k"
    by (simp add: nth_upto)
  moreover have "nat (int (length xs) - 7 + int k - 1) = length xs - 8 + k"
    using assms by simp
  ultimately show "map (\<lambda>i. xs ! nat (i - 1)) [int (length xs) - 7 .. int (length xs)] ! k
      = drop (length xs - 8) xs ! k"
    using k assms by simp
qed

lemma k86r_counts_last_eight:
  assumes "9 \<le> moven" and "int (length ioppnt) = moven - 1"
  shows "k86r_loop ioppnt (py_range (moven - 7 - 1) (moven - 1 + 1)) 0
    = Inr (int (count_list (drop (length ioppnt - 8) ioppnt) D))"
proof -
  have len: "8 \<le> length ioppnt" using assms by linarith
  have r: "py_range (moven - 7 - 1) (moven - 1 + 1)
      = [int (length ioppnt) - 7 .. int (length ioppnt)]"
    using assms(2) by (simp add: py_range_def)
  have "\<forall>i\<in>set [int (length ioppnt) - 7 .. int (length ioppnt)].
      1 \<le> i \<and> i \<le> int (length ioppnt)"
    using len by auto
  from k86r_loop_in_range [OF this, of 0] show ?thesis
    unfolding r by (simp add: last_eight_positions [OF len])
qed

text \<open>
  C2 does not hold of the code. The state below is reached by the code itself after eight
  rounds against \<open>D, C, C, C, C, D, C, C\<close>; MoreGrofman is at its move number 9 and its own
  previous move is Defect. The opponent's moves at positions 1 to 7, the seven most recent
  rounds, hold one defection, for which the decision table answers Cooperate. The loop of
  \<open>k86r\<close> runs over \<open>range(j - 1, k + 1)\<close> and reads \<open>ioppnt[i - 1]\<close>, eight positions
  from 0 to 7, so it also counts the defection of the eighth most recent round; the count is
  2 and the answer Defect.
\<close>

theorem MoreGrofman_counts_eighth_round:
  "play MoreGrofman_strategy moregrofman_start [D, C, C, C, C, D, C, C]
     = Inr moregrofman_ninth_move
   \<and> int (length (history (self moregrofman_ninth_move))) + 1 = 9
   \<and> getitem (history (self moregrofman_ninth_move)) (- 1) = Inr D
   \<and> count_list (take 7 (drop 1 (history (opponent moregrofman_ninth_move)))) D = 1
   \<and> k86r_loop (history (opponent moregrofman_ninth_move)) (py_range (9 - 7 - 1) (9 - 1 + 1)) 0
       = Inr 2
   \<and> fst (MoreGrofman_strategy moregrofman_ninth_move) = Inr D"
proof -
  have "play MoreGrofman_strategy moregrofman_start [D, C, C, C, C, D, C, C]
      = Inr moregrofman_ninth_move"
    by (simp add: moregrofman_start_def moregrofman_ninth_move_def MoreGrofman_strategy_def
        k86r_def getitem_def update_history_def py_range_def Let_def upto.simps)
  moreover have "int (length (history (self moregrofman_ninth_move))) + 1 = 9
      \<and> getitem (history (self moregrofman_ninth_move)) (- 1) = Inr D
      \<and> count_list (take 7 (drop 1 (history (opponent moregrofman_ninth_move)))) D = 1"
    by (simp add: moregrofman_ninth_move_def getitem_def)
  moreover have "k86r_loop (history (opponent moregrofman_ninth_move))
      (py_range (9 - 7 - 1) (9 - 1 + 1)) 0 = Inr 2"
    by (simp add: moregrofman_ninth_move_def getitem_def py_range_def upto.simps)
  moreover have "fst (MoreGrofman_strategy moregrofman_ninth_move) = Inr D"
    by (simp add: moregrofman_ninth_move_def MoreGrofman_strategy_def k86r_def getitem_def
        py_range_def Let_def upto.simps)
  ultimately show ?thesis by blast
qed

subsection \<open>No division by zero\<close>

text \<open>
  C8, as the claim states it, fails: equal history lengths do not keep every call free of
  errors. With a match length of \<open>10^400\<close>, an integer too large for a double, the
  histories of equal length 1 and the length attribute present, the division
  \<open>expected_length / 20\<close> raises \<open>OverflowError\<close>, and so does Champion.
\<close>

theorem Champion_overflow_counterexample:
  "length (history (self champion_huge_length)) = length (history (opponent champion_huge_length))
   \<and> match_attributes (self champion_huge_length) ''length'' = Some (Fin huge_length)
   \<and> truediv huge_length 20 = Inl OverflowError
   \<and> fst (Champion_strategy champion_huge_length) = Inl OverflowError"
proof -
  have "overflow_bound \<le> \<bar>real_of_int huge_length / real_of_int 20\<bar>"
    by (simp add: overflow_bound_def huge_length_def)
  then have "overflow_bound \<le> \<bar>round_double (real_of_int huge_length / real_of_int 20)\<bar>"
    by (rule round_double_overflow)
  then have t: "truediv huge_length 20 = Inl OverflowError"
    by (simp only: truediv_def Let_def) simp
  then have s: "fst (Champion_strategy champion_huge_length) = Inl OverflowError"
    by (simp add: champion_huge_length_def Champion_strategy_def)
  have h: "length (history (self champion_huge_length))
      = length (history (opponent champion_huge_length))"
    "match_attributes (self champion_huge_length) ''length'' = Some (Fin huge_length)"
    by (simp_all add: champion_huge_length_def)
  from h t s show ?thesis by blast
qed

lemma num_div_in_range:
  assumes "in_double_range len"
  shows "(\<exists>v. num_div len 20 = Inr v) \<and> (\<exists>v. num_div (num_mul len 5) 40 = Inr v)"
proof (cases len)
  case (Fin x)
  with assms have x: "\<bar>real_of_int x\<bar> < 2 ^ 1024"
    by (metis in_double_range.simps(1) of_int_abs of_int_less_iff of_int_numeral of_int_power)
  have p: "(2::real) powi 1023 = 2 ^ 1024 / 2" by simp
  have "\<bar>real_of_int x / real_of_int 20\<bar> < 2 powi 1023"
    unfolding p using x by (simp add: abs_divide)
  then have 1: "truediv x 20 = Inr (round_double (real_of_int x / real_of_int 20))"
    by (intro truediv_in_range) simp
  have "\<bar>real_of_int (x * 5) / real_of_int 40\<bar> < 2 powi 1023"
    unfolding p using x by (simp add: abs_divide)
  then have 2: "truediv (x * 5) 40 = Inr (round_double (real_of_int (x * 5) / real_of_int 40))"
    by (intro truediv_in_range) simp
  show ?thesis using Fin 1 2 by simp
next
  case PosInf
  then show ?thesis by simp
qed

lemma Champion_no_zero_division:
  assumes "length (history (self w)) = length (history (opponent w))"
  shows "fst (Champion_strategy w) \<noteq> Inl ZeroDivisionError"
proof (cases "history (self w) = []")
  case True
  then show ?thesis
    by (simp add: Champion_strategy_def split: option.split)
next
  case False
  with assms have ne: "history (opponent w) \<noteq> []" by auto
  then have n: "int (length (history (opponent w))) \<noteq> 0" by simp
  have d: "num_div len k \<noteq> Inl ZeroDivisionError" if "k \<noteq> 0" for len k
    using that truediv_not_zero_division [of k] by (cases len) (auto split: sum.splits)
  show ?thesis
    using False ne d [of 20] d [of 40] truediv_not_zero_division [OF n]
    by (auto simp add: Champion_strategy_def Let_def getitem_last random_def
        split: option.split sum.split prod.split)
qed

lemma Champion_returns_move:
  assumes "length (history (self w)) = length (history (opponent w))"
    and "match_attributes (self w) ''length'' = Some len" and "in_double_range len"
    and "0 \<le> defections (opponent w)"
    and "defections (opponent w) \<le> int (length (history (opponent w)))"
  shows "\<exists>m. fst (Champion_strategy w) = Inr m"
proof (cases "history (self w) = []")
  case True
  with assms(2) show ?thesis by (simp add: Champion_strategy_def)
next
  case False
  with assms(1) have ne: "history (opponent w) \<noteq> []" by auto
  from num_div_in_range [OF assms(3)] obtain v1 v2 where
    v: "num_div len 20 = Inr v1" "num_div (num_mul len 5) 40 = Inr v2"
    by blast
  have "truediv (defections (opponent w)) (int (length (history (opponent w))))
      = Inr (round_double (real_of_int (defections (opponent w))
               / real (length (history (opponent w)))))"
    using assms(4,5) ne by (intro truediv_ratio) simp_all
  with False ne assms(2) v show ?thesis
    by (simp add: Champion_strategy_def Let_def getitem_last random_def split: prod.split)
qed

lemma Eatherley_no_zero_division:
  "fst (Eatherley_strategy w) \<noteq> Inl ZeroDivisionError"
proof (cases "history (opponent w) = []")
  case True
  then show ?thesis by (simp add: Eatherley_strategy_def)
next
  case False
  then have n: "int (length (history (opponent w))) \<noteq> 0" by simp
  show ?thesis
    using False truediv_not_zero_division [OF n]
    by (auto simp add: Eatherley_strategy_def getitem_last split: sum.split prod.split)
qed

lemma Eatherley_returns_move:
  assumes "0 \<le> defections (opponent w)"
    and "defections (opponent w) \<le> int (length (history (opponent w)))"
  shows "\<exists>m. fst (Eatherley_strategy w) = Inr m"
proof (cases "history (opponent w) = []")
  case True
  then show ?thesis by (simp add: Eatherley_strategy_def)
next
  case False
  have "truediv (defections (opponent w)) (int (length (history (opponent w))))
      = Inr (round_double (real_of_int (defections (opponent w))
               / real (length (history (opponent w)))))"
    using assms False by (intro truediv_ratio) simp_all
  with False show ?thesis
    by (simp add: Eatherley_strategy_def getitem_last split: prod.split)
qed

lemma Gladstein_no_zero_division:
  assumes "length (history (self w)) = length (history (opponent w))"
  shows "fst (Gladstein_strategy w) \<noteq> Inl ZeroDivisionError"
proof (cases "history (self w) = []")
  case True
  then show ?thesis by (simp add: Gladstein_strategy_def)
next
  case False
  with assms have ne: "history (opponent w) \<noteq> []" by auto
  from False have n: "int (length (history (self w))) \<noteq> 0" by simp
  show ?thesis
    using False ne truediv_not_zero_division [OF n]
    by (auto simp add: Gladstein_strategy_def getitem_last split: sum.split)
qed

lemma Gladstein_returns_move:
  assumes "length (history (self w)) = length (history (opponent w))"
    and "0 \<le> cooperations (self w)"
    and "cooperations (self w) \<le> int (length (history (self w)))"
  shows "\<exists>m. fst (Gladstein_strategy w) = Inr m"
proof (cases "history (self w) = []")
  case True
  then show ?thesis by (simp add: Gladstein_strategy_def)
next
  case False
  with assms(1) have ne: "history (opponent w) \<noteq> []" by auto
  have "truediv (cooperations (self w)) (int (length (history (self w))))
      = Inr (round_double (real_of_int (cooperations (self w))
               / real (length (history (self w)))))"
    using assms(2,3) False by (intro truediv_ratio) simp_all
  with False ne show ?thesis
    by (simp add: Gladstein_strategy_def getitem_last)
qed

text \<open>
  C8, amended: when both histories have the same length, as the match engine keeps them, no
  division of Champion, Eatherley or Gladstein has a zero divisor, so \<open>ZeroDivisionError\<close>
  is never raised. Each of them returns a move without any error when in addition the
  operands are in the range of a double: the count that is divided lies between 0 and the
  length of its history and, for Champion, the match length is present and is
  \<open>float('inf')\<close> or an integer of magnitude below \<open>2^1024\<close>.
\<close>

theorem ratio_divisions_safe:
  "(length (history (self wc)) = length (history (opponent wc)) \<longrightarrow>
      fst (Champion_strategy wc) \<noteq> Inl ZeroDivisionError
      \<and> (match_attributes (self wc) ''length'' = Some len \<and> in_double_range len
          \<and> 0 \<le> defections (opponent wc)
          \<and> defections (opponent wc) \<le> int (length (history (opponent wc)))
         \<longrightarrow> (\<exists>m. fst (Champion_strategy wc) = Inr m)))
   \<and> (length (history (self we)) = length (history (opponent we)) \<longrightarrow>
      fst (Eatherley_strategy we) \<noteq> Inl ZeroDivisionError
      \<and> (0 \<le> defections (opponent we)
          \<and> defections (opponent we) \<le> int (length (history (opponent we)))
         \<longrightarrow> (\<exists>m. fst (Eatherley_strategy we) = Inr m)))
   \<and> (length (history (self wg)) = length (history (opponent wg)) \<longrightarrow>
      fst (Gladstein_strategy wg) \<noteq> Inl ZeroDivisionError
      \<and> (0 \<le> cooperations (self wg)
          \<and> cooperations (self wg) \<le> int (length (history (self wg)))
         \<longrightarrow> (\<exists>m. fst (Gladstein_strategy wg) = Inr m)))"
  using Champion_no_zero_division [of wc] Champion_returns_move [of wc len]
    Eatherley_no_zero_division [of we] Eatherley_returns_move [of we]
    Gladstein_no_zero_division [of wg] Gladstein_returns_move [of wg]
  by blast

theorem ratio_divisions_safe_witness:
  "length (history (self champion_late)) = length (history (opponent champion_late))
   \<and> match_attributes (self champion_late) ''length'' = Some (Fin 200)
   \<and> in_double_range (Fin 200)
   \<and> 0 \<le> defections (opponent champion_late)
   \<and> defections (opponent champion_late) \<le> int (length (history (opponent champion_late)))
   \<and> length (history (self eatherley_all_defections))
       = length (history (opponent eatherley_all_defections))
   \<and> 0 \<le> defections (opponent eatherley_all_defections)
   \<and> defections (opponent eatherley_all_defections)
       \<le> int (length (history (opponent eatherley_all_defections)))
   \<and> length (history (self gladstein_generous)) = length (history (opponent gladstein_generous))
   \<and> 0 \<le> cooperations (self gladstein_generous)
   \<and> cooperations (self gladstein_generous) \<le> int (length (history (self gladstein_generous)))
   \<and> fst (Champion_strategy champion_late) \<noteq> Inl ZeroDivisionError
   \<and> (\<exists>m. fst (Champion_strategy champion_late) = Inr m)
   \<and> fst (Eatherley_strategy eatherley_all_defections) \<noteq> Inl ZeroDivisionError
   \<and> (\<exists>m. fst (Eatherley_strategy eatherley_all_defections) = Inr m)
   \<and> fst (Gladstein_strategy gladstein_generous) \<noteq> Inl ZeroDivisionError
   \<and> (\<exists>m. fst (Gladstein_strategy gladstein_generous) = Inr m)"
proof -
  have c: "length (history (self champion_late)) = length (history (opponent champion_late))"
    "match_attributes (self champion_late) ''length'' = Some (Fin 200)"
    "in_double_range (Fin 200)"
    "0 \<le> defections (opponent champion_late)"
    "defections (opponent champion_late) \<le> int (length (history (opponent champion_late)))"
    by (simp_all add: champion_late_def)
  have e: "length (history (self eatherley_all_defections))
       = length (history (opponent eatherley_all_defections))"
    "0 \<le> defections (opponent eatherley_all_defections)"
    "defections (opponent eatherley_all_defections)
       \<le> int (length (history (opponent eatherley_all_defections)))"
    by (simp_all add: eatherley_all_defections_def)
  have g: "length (history (self gladstein_generous)) = length (history (opponent gladstein_generous))"
    "0 \<le> cooperations (self gladstein_generous)"
    "cooperations (self gladstein_generous) \<le> int (length (history (self gladstein_generous)))"
    by (simp_all add: gladstein_generous_def)
  show ?thesis
    using c e g
      ratio_divisions_safe [of champion_late "Fin 200" eatherley_all_defections gladstein_generous]
    by blast
qed

subsection \<open>Tester\<close>

lemma Tester_TFT_step:
  assumes "is_TFT (self w)" and "history (opponent w) \<noteq> []"
  shows "Tester_strategy w = (Inr (last (history (opponent w))), w)"
proof (cases "last (history (opponent w))")
  case C
  with assms show ?thesis
    by (simp add: Tester_strategy_def last_slice_nonempty)
next
  case D
  with assms show ?thesis
    by (simp add: Tester_strategy_def last_slice_nonempty)
qed

lemma Tester_TFT_run:
  "is_TFT (self w) \<Longrightarrow> history (opponent w) \<noteq> [] \<Longrightarrow>
   \<exists>w'. play Tester_strategy w oms = Inr w' \<and> is_TFT (self w')
      \<and> history (self w') = history (self w) @ butlast (last (history (opponent w)) # oms)
      \<and> history (opponent w') = history (opponent w) @ oms"
proof (induction oms arbitrary: w)
  case Nil
  then show ?case by simp
next
  case (Cons om oms)
  let ?u = "w\<lparr>self := update_history (self w) (last (history (opponent w))),
              opponent := update_history (opponent w) om\<rparr>"
  have step: "play Tester_strategy w (om # oms) = play Tester_strategy ?u oms"
    using Cons.prems by (simp add: Tester_TFT_step)
  have "is_TFT (self ?u)" "history (opponent ?u) \<noteq> []"
    using Cons.prems by (simp_all add: update_history_def)
  from Cons.IH [OF this] obtain w' where
    "play Tester_strategy ?u oms = Inr w'" "is_TFT (self w')"
    "history (self w') = history (self ?u) @ butlast (last (history (opponent ?u)) # oms)"
    "history (opponent w') = history (opponent ?u) @ oms"
    by blast
  then show ?case
    using step by (simp add: update_history_def)
qed

text \<open>
  C3: take the round in which Tester has not apologised yet and the opponent's previous
  move is Defect. Tester returns Cooperate and sets \<open>is_TFT\<close>. However the opponent moves
  from then on (\<open>om\<close> in this round, \<open>oms\<close> in the rounds after), every such match runs
  without error, the flag is still set at its end, and the moves Tester has added are the
  apology followed by the opponent's move of the round before, round after round.
\<close>

theorem Tester_apology_then_tit_for_tat:
  assumes "history (opponent w) \<noteq> []" and "\<not> is_TFT (self w)"
    and "last (history (opponent w)) = D"
  shows "Tester_strategy w = (Inr C, w\<lparr>self := (self w)\<lparr>is_TFT := True\<rparr>\<rparr>)
    \<and> (\<exists>w'. play Tester_strategy w (om # oms) = Inr w' \<and> is_TFT (self w')
          \<and> history (self w') = history (self w) @ C # butlast (om # oms)
          \<and> history (opponent w') = history (opponent w) @ om # oms)"
proof -
  have first: "Tester_strategy w = (Inr C, w\<lparr>self := (self w)\<lparr>is_TFT := True\<rparr>\<rparr>)"
    using assms by (simp add: Tester_strategy_def getitem_last)
  let ?u = "w\<lparr>self := update_history ((self w)\<lparr>is_TFT := True\<rparr>) C,
              opponent := update_history (opponent w) om\<rparr>"
  have step: "play Tester_strategy w (om # oms) = play Tester_strategy ?u oms"
    by (simp add: first)
  have "is_TFT (self ?u)" "history (opponent ?u) \<noteq> []"
    by (simp_all add: update_history_def)
  from Tester_TFT_run [OF this, of oms] obtain w' where
    "play Tester_strategy ?u oms = Inr w'" "is_TFT (self w')"
    "history (self w') = history (self ?u) @ butlast (last (history (opponent ?u)) # oms)"
    "history (opponent w') = history (opponent ?u) @ oms"
    by blast
  then have "play Tester_strategy w (om # oms) = Inr w' \<and> is_TFT (self w')
          \<and> history (self w') = history (self w) @ C # butlast (om # oms)
          \<and> history (opponent w') = history (opponent w) @ om # oms"
    using step by (simp add: update_history_def)
  then show ?thesis using first by blast
qed

theorem Tester_apology_then_tit_for_tat_witness:
  "history (opponent tester_provoked) \<noteq> [] \<and> \<not> is_TFT (self tester_provoked)
   \<and> last (history (opponent tester_provoked)) = D
   \<and> fst (Tester_strategy tester_provoked) = Inr C
   \<and> is_TFT (self (snd (Tester_strategy tester_provoked)))
   \<and> (\<exists>w'. play Tester_strategy tester_provoked [C, D, D, C] = Inr w' \<and> is_TFT (self w')
          \<and> history (self w') = [D, C, C, D, D]
          \<and> history (opponent w') = [D, C, D, D, C])"
proof -
  have pre: "history (opponent tester_provoked) \<noteq> []" "\<not> is_TFT (self tester_provoked)"
    "last (history (opponent tester_provoked)) = D"
    by (simp_all add: tester_provoked_def)
  have hs: "history (self tester_provoked) = [D]" "history (opponent tester_provoked) = [D]"
    by (simp_all add: tester_provoked_def)
  show ?thesis
    using pre Tester_apology_then_tit_for_tat [OF pre, of C "[D, D, C]"]
    by (simp add: hs del: play.simps)
qed

lemma Tester_coop_step:
  assumes "history (self w) = map f [0..<k]" and "history (opponent w) = replicate k C"
    and "\<not> is_TFT (self w)"
    and f: "f = (\<lambda>i. if i = 0 then D else if i \<le> 2 then C else if odd i then D else C)"
  shows "Tester_strategy w = (Inr (f k), w)"
proof -
  consider "k = 0" | "k = 1 \<or> k = 2" | "3 \<le> k" by linarith
  then show ?thesis
  proof cases
    case 1
    with assms show ?thesis by (simp add: Tester_strategy_def)
  next
    case 2
    with assms show ?thesis by (auto simp add: Tester_strategy_def getitem_last)
  next
    case 3
    then have ne: "history (self w) \<noteq> []" "history (opponent w) \<noteq> []"
      using assms by auto
    have lo: "last (history (opponent w)) = C"
      using 3 assms(2) by simp
    have ls: "last (history (self w)) = f (k - 1)"
      using 3 assms(1) by (simp add: last_map)
    have "flip (f (k - 1)) = f k"
      using 3 unfolding f by (cases "k = 3") auto
    then show ?thesis
      using 3 ne lo ls assms(1) assms(3) by (simp add: Tester_strategy_def getitem_last)
  qed
qed

lemma Tester_coop_run:
  assumes f: "f = (\<lambda>i. if i = 0 then D else if i \<le> 2 then C else if odd i then D else C)"
  shows "history (self w) = map f [0..<k] \<Longrightarrow> history (opponent w) = replicate k C \<Longrightarrow>
    \<not> is_TFT (self w) \<Longrightarrow>
    \<exists>w'. play Tester_strategy w (replicate n C) = Inr w' \<and> \<not> is_TFT (self w')
       \<and> history (self w') = map f [0..<k + n]"
proof (induction n arbitrary: w k)
  case 0
  then show ?case by simp
next
  case (Suc n)
  let ?u = "w\<lparr>self := update_history (self w) (f k),
              opponent := update_history (opponent w) C\<rparr>"
  have step: "play Tester_strategy w (replicate (Suc n) C) = play Tester_strategy ?u (replicate n C)"
    using Tester_coop_step [OF Suc.prems f] by simp
  have "history (self ?u) = map f [0..<Suc k]" "history (opponent ?u) = replicate (Suc k) C"
    "\<not> is_TFT (self ?u)"
    using Suc.prems by (simp_all add: update_history_def replicate_append_same)
  from Suc.IH [OF this] show ?case
    using step by simp
qed

text \<open>
  C7: started on empty histories with the flag unset and played for \<open>n\<close> rounds against an
  opponent who cooperates in every round, Tester never fails and its moves are Defect at
  round 0, Cooperate at rounds 1 and 2, and from round 3 on the flip of its own previous
  move: Defect at the odd rounds and Cooperate at the even ones, that is
  \<open>D, C, C, D, C, D, C, ...\<close>.
\<close>

theorem Tester_against_cooperator:
  assumes "history (self w) = []" and "history (opponent w) = []" and "\<not> is_TFT (self w)"
  shows "\<exists>w'. play Tester_strategy w (replicate n C) = Inr w'
    \<and> history (self w') =
        map (\<lambda>i. if i = 0 then D else if i \<le> 2 then C else if odd i then D else C) [0..<n]
    \<and> (\<forall>i<n. history (self w') ! i =
          (if i = 0 then D else if i \<le> 2 then C else flip (history (self w') ! (i - 1))))"
proof -
  define f where "f = (\<lambda>i::nat. if i = 0 then D else if i \<le> 2 then C else if odd i then D else C)"
  from Tester_coop_run [OF f_def, of w 0 n] assms obtain w' where
    run: "play Tester_strategy w (replicate n C) = Inr w'" and h: "history (self w') = map f [0..<n]"
    by auto
  have "history (self w') ! i = (if i = 0 then D else if i \<le> 2 then C else flip (history (self w') ! (i - 1)))"
    if "i < n" for i
  proof -
    have "f i = (if i = 0 then D else if i \<le> 2 then C else flip (f (i - 1)))"
      unfolding f_def by (cases "i = 3") auto
    then show ?thesis using that h by simp
  qed
  then show ?thesis using run h unfolding f_def by blast
qed

theorem Tester_against_cooperator_witness:
  "history (self tester_start) = [] \<and> history (opponent tester_start) = []
   \<and> \<not> is_TFT (self tester_start)
   \<and> (\<exists>w'. play Tester_strategy tester_start [C, C, C, C, C, C, C] = Inr w'
          \<and> history (self w') = [D, C, C, D, C, D, C])"
proof -
  have pre: "history (self tester_start) = []" "history (opponent tester_start) = []"
    "\<not> is_TFT (self tester_start)"
    by (simp_all add: tester_start_def)
  have seven: "replicate 7 C = [C, C, C, C, C, C, C]"
    by (simp add: numeral_eq_Suc)
  have moves: "map (\<lambda>i. if i = 0 then D else if i \<le> 2 then C else if odd i then D else C) [0..<7]
      = [D, C, C, D, C, D, C]"
    by code_simp
  from Tester_against_cooperator [OF pre, of 7] obtain w' where
    "play Tester_strategy tester_start (replicate 7 C) = Inr w'"
    "history (self w') =
        map (\<lambda>i. if i = 0 then D else if i \<le> 2 then C else if odd i then D else C) [0..<7]"
    by blast
  then show ?thesis
    using pre seven moves by (simp del: play.simps)
qed

subsection \<open>What a call leaves untouched\<close>

text \<open>
  C9: a call of any of the five strategies hands back the opponent object as it received it,
  so the opponent's history and its counts of cooperations and defections are unchanged.
  Of the calling player only the private flag can differ afterwards (\<open>is_TFT\<close> for Tester,
  \<open>patsy\<close> for Gladstein); Champion, Eatherley and MoreGrofman leave the player as it was.
\<close>

theorem strategy_leaves_opponent_unchanged:
  "opponent (snd (Champion_strategy wc)) = opponent wc
   \<and> self (snd (Champion_strategy wc)) = self wc
   \<and> opponent (snd (Eatherley_strategy we)) = opponent we
   \<and> self (snd (Eatherley_strategy we)) = self we
   \<and> opponent (snd (Tester_strategy wt)) = opponent wt
   \<and> self (snd (Tester_strategy wt)) = (self wt)\<lparr>is_TFT := is_TFT (self (snd (Tester_strategy wt)))\<rparr>
   \<and> opponent (snd (Gladstein_strategy wg)) = opponent wg
   \<and> self (snd (Gladstein_strategy wg)) = (self wg)\<lparr>patsy := patsy (self (snd (Gladstein_strategy wg)))\<rparr>
   \<and> opponent (snd (MoreGrofman_strategy wm)) = opponent wm
   \<and> self (snd (MoreGrofman_strategy wm)) = self wm"
proof -
  have "opponent (snd (Champion_strategy wc)) = opponent wc \<and> self (snd (Champion_strategy wc)) = self wc"
    by (simp add: Champion_strategy_def Let_def random_def split: option.split sum.split prod.split)
  moreover have "opponent (snd (Eatherley_strategy we)) = opponent we \<and> self (snd (Eatherley_strategy we)) = self we"
    by (simp add: Eatherley_strategy_def Let_def random_choice_def random_def split: sum.split prod.split)
  moreover have "opponent (snd (Tester_strategy wt)) = opponent wt
      \<and> self (snd (Tester_strategy wt)) = (self wt)\<lparr>is_TFT := is_TFT (self (snd (Tester_strategy wt)))\<rparr>"
    by (simp add: Tester_strategy_def split: sum.split)
  moreover have "opponent (snd (Gladstein_strategy wg)) = opponent wg
      \<and> self (snd (Gladstein_strategy wg)) = (self wg)\<lparr>patsy := patsy (self (snd (Gladstein_strategy wg)))\<rparr>"
    by (simp add: Gladstein_strategy_def split: sum.split)
  moreover have "opponent (snd (MoreGrofman_strategy wm)) = opponent wm \<and> self (snd (MoreGrofman_strategy wm)) = self wm"
    by (simp add: MoreGrofman_strategy_def Let_def split: sum.split)
  ultimately show ?thesis by blast
qed

subsection \<open>Strategies that take no draw\<close>

text \<open>
  C10: Tester, Gladstein and MoreGrofman do not consult the random source. Run on the same
  players with two different streams of draws \<open>g1\<close> and \<open>g2\<close>, each returns the same
  move and leaves its own player in the same state, and the stream it was given comes back
  with no draw taken.
\<close>

theorem deterministic_strategies_ignore_random_source:
  "fst (Tester_strategy (wt\<lparr>rand := g1\<rparr>)) = fst (Tester_strategy (wt\<lparr>rand := g2\<rparr>))
   \<and> self (snd (Tester_strategy (wt\<lparr>rand := g1\<rparr>))) = self (snd (Tester_strategy (wt\<lparr>rand := g2\<rparr>)))
   \<and> rand (snd (Tester_strategy wt)) = rand wt
   \<and> fst (Gladstein_strategy (wg\<lparr>rand := g1\<rparr>)) = fst (Gladstein_strategy (wg\<lparr>rand := g2\<rparr>))
   \<and> self (snd (Gladstein_strategy (wg\<lparr>rand := g1\<rparr>))) = self (snd (Gladstein_strategy (wg\<lparr>rand := g2\<rparr>)))
   \<and> rand (snd (Gladstein_strategy wg)) = rand wg
   \<and> fst (MoreGrofman_strategy (wm\<lparr>rand := g1\<rparr>)) = fst (MoreGrofman_strategy (wm\<lparr>rand := g2\<rparr>))
   \<and> self (snd (MoreGrofman_strategy (wm\<lparr>rand := g1\<rparr>))) = self (snd (MoreGrofman_strategy (wm\<lparr>rand := g2\<rparr>)))
   \<and> rand (snd (MoreGrofman_strategy wm)) = rand wm"
proof -
  have "fst (Tester_strategy (wt\<lparr>rand := g1\<rparr>)) = fst (Tester_strategy (wt\<lparr>rand := g2\<rparr>))
      \<and> self (snd (Tester_strategy (wt\<lparr>rand := g1\<rparr>))) = self (snd (Tester_strategy (wt\<lparr>rand := g2\<rparr>)))
      \<and> rand (snd (Tester_strategy wt)) = rand wt"
    by (simp add: Tester_strategy_def split: sum.split)
  moreover have "fst (Gladstein_strategy (wg\<lparr>rand := g1\<rparr>)) = fst (Gladstein_strategy (wg\<lparr>rand := g2\<rparr>))
      \<and> self (snd (Gladstein_strategy (wg\<lparr>rand := g1\<rparr>))) = self (snd (Gladstein_strategy (wg\<lparr>rand := g2\<rparr>)))
      \<and> rand (snd (Gladstein_strategy wg)) = rand wg"
    by (simp add: Gladstein_strategy_def split: sum.split)
  moreover have "fst (MoreGrofman_strategy (wm\<lparr>rand := g1\<rparr>)) = fst (MoreGrofman_strategy (wm\<lparr>rand := g2\<rparr>))
      \<and> self (snd (MoreGrofman_strategy (wm\<lparr>rand := g1\<rparr>))) = self (snd (MoreGrofman_strategy (wm\<lparr>rand := g2\<rparr>)))
      \<and> rand (snd (MoreGrofman_strategy wm)) = rand wm"
    by (simp add: MoreGrofman_strategy_def Let_def split: sum.split)
  ultimately show ?thesis by blast
qed

end
